theory Spec2Isabelle
  imports Main "HOL-Library.Word" "HOL-Library.Char_ord" "HOL-Library.List_Lexorder"
begin

unbundle bit_operations_syntax

section \<open>Python values\<close>

text \<open>
  The values that flow through \<^verbatim>\<open>steam-grid-ripper.py\<close>: \<^verbatim>\<open>None\<close>, unbounded integers,
  byte strings, text and dictionaries (an association list in insertion order; lookups take
  the first binding of a key). Text is modelled over the code points U+0000 to U+00FF, one
  \<^typ>\<open>char\<close> per code point; text holding other code points is outside the model, and so
  are floats.
\<close>

type_synonym byte = "8 word"

datatype pyval =
    PNone
  | PInt int
  | PBytes "byte list"
  | PStr string
  | PDict "(pyval \<times> pyval) list"

text \<open>The exceptions the modelled operations raise; all of them derive from \<^verbatim>\<open>Exception\<close>.\<close>

datatype exn =
    TypeError
  | ValueError
  | AttributeError
  | IndexError
  | OSError string
  | RequestException string
  | ParseError string

subsection \<open>Truth value, \<^verbatim>\<open>or\<close>, \<^verbatim>\<open>dict.get\<close>\<close>

fun truthy :: "pyval \<Rightarrow> bool" where
  "truthy PNone = False"
| "truthy (PInt i) = (i \<noteq> 0)"
| "truthy (PBytes b) = (b \<noteq> [])"
| "truthy (PStr s) = (s \<noteq> [])"
| "truthy (PDict kvs) = (kvs \<noteq> [])"

text \<open>\<^verbatim>\<open>a or b\<close> is \<^verbatim>\<open>a\<close> when \<^verbatim>\<open>a\<close> is truthy and \<^verbatim>\<open>b\<close> otherwise.\<close>

definition py_or :: "pyval \<Rightarrow> pyval \<Rightarrow> pyval" where
  "py_or a b = (if truthy a then a else b)"

text \<open>\<^verbatim>\<open>obj.get(key)\<close>: the value, \<^verbatim>\<open>None\<close> for a missing key, and
  \<^verbatim>\<open>AttributeError\<close> when \<^verbatim>\<open>obj\<close> is not a dictionary.\<close>

definition dict_get :: "(pyval \<times> pyval) list \<Rightarrow> pyval \<Rightarrow> pyval" where
  "dict_get kvs k = (case map_of kvs k of None \<Rightarrow> PNone | Some v \<Rightarrow> v)"

fun py_get :: "pyval \<Rightarrow> pyval \<Rightarrow> exn + pyval" where
  "py_get (PDict kvs) k = Inr (dict_get kvs k)"
| "py_get _ k = Inl AttributeError"

subsection \<open>\<^verbatim>\<open>str\<close> of an integer\<close>

text \<open>The decimal numeral, with a minus sign for a negative number. (Recent interpreters
  refuse \<^verbatim>\<open>str\<close> of an integer of more than 4300 digits; the integers of a registry are 32 and
  64 bits wide and stay far below that.)\<close>

definition digit_char :: "nat \<Rightarrow> char" where
  "digit_char d = ''0123456789'' ! d"

fun dec_digits :: "nat \<Rightarrow> string" where
  "dec_digits n = (if n < 10 then [digit_char n] else dec_digits (n div 10) @ [digit_char (n mod 10)])"

declare dec_digits.simps [simp del]

definition str_of_int :: "int \<Rightarrow> string" where
  "str_of_int i = (if i < 0 then CHR ''-'' # dec_digits (nat (- i)) else dec_digits (nat i))"

subsection \<open>\<^verbatim>\<open>int\<close> of a text\<close>

text \<open>
  \<^verbatim>\<open>int(s)\<close> strips white space, takes an optional sign and then decimal digits, where single
  underscores may stand between two digits; anything else is a \<^verbatim>\<open>ValueError\<close>, and so is a
  numeral of more than 4300 digits. The white space \<^verbatim>\<open>int\<close> strips is U+0009 to U+000D,
  U+0020, U+0085 and U+00A0. The white space of \<^verbatim>\<open>str.strip\<close> holds U+001C to U+001F as well.
\<close>

definition is_space :: "char \<Rightarrow> bool" where
  "is_space c = (let n = (of_char c :: nat) in
     (9 \<le> n \<and> n \<le> 13) \<or> (28 \<le> n \<and> n \<le> 32) \<or> n = 133 \<or> n = 160)"

definition str_strip :: "string \<Rightarrow> string" where
  "str_strip s = rev (dropWhile is_space (rev (dropWhile is_space s)))"

definition is_int_space :: "char \<Rightarrow> bool" where
  "is_int_space c = (let n = (of_char c :: nat) in
     (9 \<le> n \<and> n \<le> 13) \<or> n = 32 \<or> n = 133 \<or> n = 160)"

definition int_strip :: "string \<Rightarrow> string" where
  "int_strip s = rev (dropWhile is_int_space (rev (dropWhile is_int_space s)))"

definition max_str_digits :: nat where
  "max_str_digits = 4300"

definition is_ascii_digit :: "char \<Rightarrow> bool" where
  "is_ascii_digit c = (let n = (of_char c :: nat) in 48 \<le> n \<and> n \<le> 57)"

definition digit_val :: "char \<Rightarrow> nat" where
  "digit_val c = of_char c - 48"

fun scan_digits :: "nat \<Rightarrow> string \<Rightarrow> nat option" where
  "scan_digits acc [] = Some acc"
| "scan_digits acc (c # cs) =
     (if is_ascii_digit c then scan_digits (10 * acc + digit_val c) cs
      else if c = CHR ''_'' \<and> cs \<noteq> [] \<and> is_ascii_digit (hd cs) then scan_digits acc cs
      else None)"

definition parse_unsigned :: "string \<Rightarrow> nat option" where
  "parse_unsigned s =
     (case s of [] \<Rightarrow> None
      | c # cs \<Rightarrow> if is_ascii_digit c then scan_digits 0 s else None)"

definition int_of_text :: "string \<Rightarrow> exn + int" where
  "int_of_text s =
     (let t = int_strip s;
          (neg, body) = (case t of
              c # cs \<Rightarrow> if c = CHR ''-'' then (True, cs)
                        else if c = CHR ''+'' then (False, cs) else (False, t)
            | [] \<Rightarrow> (False, t))
      in case parse_unsigned body of
           None \<Rightarrow> Inl ValueError
         | Some n \<Rightarrow>
             if max_str_digits < length (filter is_ascii_digit body) then Inl ValueError
             else Inr (if neg then - int n else int n))"

subsection \<open>\<^verbatim>\<open>str\<close> and \<^verbatim>\<open>int\<close> of a value\<close>

text \<open>
  \<^verbatim>\<open>str\<close> of a text is the text; of any other value it is its \<^verbatim>\<open>repr\<close>. The \<^verbatim>\<open>repr\<close> of
  a text or byte string stands between single quotes, or between double quotes when it holds
  a single quote and no double quote; the quote and the backslash are escaped with a
  backslash, tab, newline and carriage return are written \<^verbatim>\<open>\t\<close>, \<^verbatim>\<open>\n\<close>, \<^verbatim>\<open>\r\<close>, and every
  other character that is not printable is written \<^verbatim>\<open>\xhh\<close>. For a byte string the printable
  characters are U+0020 to U+007E; for a text they are these and U+00A1 to U+00FF without
  U+00AD.
\<close>

definition byte_char :: "byte \<Rightarrow> char" where
  "byte_char b = char_of (unat b)"

definition hex_digit :: "nat \<Rightarrow> char" where
  "hex_digit d = ''0123456789abcdef'' ! d"

definition ascii_printable :: "nat \<Rightarrow> bool" where
  "ascii_printable n = (32 \<le> n \<and> n < 127)"

definition text_printable :: "nat \<Rightarrow> bool" where
  "text_printable n = (ascii_printable n \<or> (161 \<le> n \<and> n \<noteq> 173))"

definition repr_char :: "(nat \<Rightarrow> bool) \<Rightarrow> char \<Rightarrow> char \<Rightarrow> string" where
  "repr_char printable quote c =
     (let n = (of_char c :: nat) in
      if c = quote \<or> n = 92 then [CHR 0x5C, c]
      else if n = 9 then [CHR 0x5C, CHR ''t'']
      else if n = 10 then [CHR 0x5C, CHR ''n'']
      else if n = 13 then [CHR 0x5C, CHR ''r'']
      else if printable n then [c]
      else [CHR 0x5C, CHR ''x'', hex_digit (n div 16), hex_digit (n mod 16)])"

definition quoted :: "(nat \<Rightarrow> bool) \<Rightarrow> string \<Rightarrow> string" where
  "quoted printable s =
     (let quote = (if CHR 0x27 \<in> set s \<and> CHR 0x22 \<notin> set s then CHR 0x22 else CHR 0x27)
      in quote # concat (map (repr_char printable quote) s) @ [quote])"

fun join_items :: "string list \<Rightarrow> string" where
  "join_items [] = []"
| "join_items [x] = x"
| "join_items (x # y # ys) = x @ '', '' @ join_items (y # ys)"

function py_repr :: "pyval \<Rightarrow> string" where
  "py_repr PNone = ''None''"
| "py_repr (PInt i) = str_of_int i"
| "py_repr (PBytes b) = CHR ''b'' # quoted ascii_printable (map byte_char b)"
| "py_repr (PStr s) = quoted text_printable s"
| "py_repr (PDict kvs) =
     CHR ''{'' # join_items (map (\<lambda>kv. py_repr (fst kv) @ '': '' @ py_repr (snd kv)) kvs) @ ''}''"
  by pat_completeness auto
termination
proof (relation "measure size")
  show "wf (measure (size :: pyval \<Rightarrow> nat))" by simp
next
  fix kvs :: "(pyval \<times> pyval) list" and kv
  assume "kv \<in> set kvs"
  then have "size_prod size size kv < Suc (size_list (size_prod size size) kvs)"
    by (induction kvs) auto
  moreover have "size (fst kv) \<le> size_prod size size kv" by (cases kv) simp
  ultimately show "(fst kv, PDict kvs) \<in> measure size" by simp
next
  fix kvs :: "(pyval \<times> pyval) list" and kv
  assume "kv \<in> set kvs"
  then have "size_prod size size kv < Suc (size_list (size_prod size size) kvs)"
    by (induction kvs) auto
  moreover have "size (snd kv) \<le> size_prod size size kv" by (cases kv) simp
  ultimately show "(snd kv, PDict kvs) \<in> measure size" by simp
qed

fun py_str :: "pyval \<Rightarrow> string" where
  "py_str (PStr s) = s"
| "py_str v = py_repr v"

text \<open>
  \<^verbatim>\<open>int(x)\<close>: an integer is returned as it is, a text is parsed, a byte string is parsed as
  ASCII text; \<^verbatim>\<open>None\<close> and dictionaries raise \<^verbatim>\<open>TypeError\<close>.
\<close>

fun py_int :: "pyval \<Rightarrow> exn + int" where
  "py_int (PInt i) = Inr i"
| "py_int (PStr s) = int_of_text s"
| "py_int (PBytes b) =
     (if \<forall>x \<in> set b. unat x < 128
      then int_of_text (map byte_char b) else Inl ValueError)"
| "py_int PNone = Inl TypeError"
| "py_int (PDict kvs) = Inl TypeError"

subsection \<open>\<^verbatim>\<open>int.from_bytes(raw, "little", signed=False)\<close>\<close>

fun int_from_bytes_little :: "byte list \<Rightarrow> int" where
  "int_from_bytes_little [] = 0"
| "int_from_bytes_little (b # bs) = uint b + 256 * int_from_bytes_little bs"

section \<open>The identifier normalizer\<close>

text \<open>
  \<^verbatim>\<open>normalize_appid_field(raw)\<close>. \<^verbatim>\<open>None\<close> returns \<^verbatim>\<open>None\<close>. A byte string is read as a
  little-endian number (which cannot raise, so the handler after it is never entered) and
  masked to 32 bits. Anything else goes through \<^verbatim>\<open>int(raw)\<close> and the mask; when that raises,
  through \<^verbatim>\<open>int(str(raw))\<close> without the mask; when that raises too, the result is \<^verbatim>\<open>None\<close>.
  The result type keeps the exception side so that "does not raise" is a statement about the
  function.
\<close>

definition normalize_appid_field :: "pyval \<Rightarrow> exn + string option" where
  "normalize_appid_field raw =
     (if raw = PNone then Inr None
      else case raw of
        PBytes b \<Rightarrow> Inr (Some (str_of_int (int_from_bytes_little b AND 0xFFFFFFFF)))
      | _ \<Rightarrow>
        (case py_int raw of
           Inr intval \<Rightarrow> Inr (Some (str_of_int (intval AND 0xFFFFFFFF)))
         | Inl e \<Rightarrow>
             (case py_int (PStr (py_str raw)) of
                Inr v \<Rightarrow> Inr (Some (str_of_int v))
              | Inl e' \<Rightarrow> Inr None)))"

section \<open>The registry reader\<close>

text \<open>
  \<^verbatim>\<open>bytes.decode("utf-8", "ignore")\<close> within the text model: ASCII bytes and the two-byte
  sequences of U+0080 to U+00FF are decoded, every byte that does not start a well-formed
  sequence is dropped, and so are the sequences of code points above U+00FF, which the text
  model does not hold.
\<close>

fun decode_utf8_ignore :: "byte list \<Rightarrow> string" where
  "decode_utf8_ignore [] = []"
| "decode_utf8_ignore [b] = (if unat b < 128 then [char_of (unat b)] else [])"
| "decode_utf8_ignore (b # c # bs) =
     (if unat b < 128 then char_of (unat b) # decode_utf8_ignore (c # bs)
      else if (unat b = 194 \<or> unat b = 195) \<and> 128 \<le> unat c \<and> unat c < 192
      then char_of ((unat b - 192) * 64 + (unat c - 128)) # decode_utf8_ignore bs
      else decode_utf8_ignore (c # bs))"

text \<open>A byte-string literal such as \<^verbatim>\<open>b"appid"\<close>.\<close>

definition bytes_lit :: "string \<Rightarrow> byte list" where
  "bytes_lit s = map (\<lambda>c. of_nat (of_char c)) s"

text \<open>\<^verbatim>\<open>obj.get("key") or obj.get(b"key")\<close>: the second lookup runs only when the first value
  is falsy.\<close>

definition get_either :: "pyval \<Rightarrow> string \<Rightarrow> exn + pyval" where
  "get_either obj key =
     (case py_get obj (PStr key) of
        Inl e \<Rightarrow> Inl e
      | Inr a \<Rightarrow> if truthy a then Inr a else py_get obj (PBytes (bytes_lit key)))"

text \<open>What \<^verbatim>\<open>ent.get("appid") or ent.get(b"appid")\<close> selects in an entry that is a
  dictionary: the value under the text key when it is truthy, otherwise the value under the
  byte-string key, \<^verbatim>\<open>None\<close> standing for a missing key.\<close>

definition appid_of_entry :: "(pyval \<times> pyval) list \<Rightarrow> pyval" where
  "appid_of_entry kvs =
     py_or (dict_get kvs (PStr ''appid'')) (dict_get kvs (PBytes (bytes_lit ''appid'')))"

text \<open>\<^verbatim>\<open>x.decode("utf-8", "ignore") if isinstance(x, (bytes, bytearray)) else str(x)\<close>\<close>

fun text_of_field :: "pyval \<Rightarrow> string" where
  "text_of_field (PBytes b) = decode_utf8_ignore b"
| "text_of_field v = py_str v"

record shortcut =
  appid :: string
  AppName :: string
  Exe :: string
  raw :: pyval

text \<open>
  The body of the loop of \<^verbatim>\<open>read_shortcuts\<close> for one entry: \<open>Inr None\<close> is
  \<^verbatim>\<open>continue\<close>, \<open>Inr (Some r)\<close> is the record appended, \<open>Inl\<close> an exception that leaves the
  function. The identifier is normalized and the name and path are read before the test
  \<^verbatim>\<open>if not appid_s\<close>.
\<close>

definition read_entry :: "pyval \<Rightarrow> exn + shortcut option" where
  "read_entry ent =
     (case get_either ent ''appid'' of Inl e \<Rightarrow> Inl e | Inr raw_appid \<Rightarrow>
      case normalize_appid_field raw_appid of Inl e \<Rightarrow> Inl e | Inr appid_s \<Rightarrow>
      case get_either ent ''AppName'' of Inl e \<Rightarrow> Inl e | Inr n \<Rightarrow>
      case get_either ent ''Exe'' of Inl e \<Rightarrow> Inl e | Inr x \<Rightarrow>
        (let raw_name = py_or n (PBytes []);
             raw_exe = py_or x (PBytes []);
             name = text_of_field raw_name;
             exe = text_of_field raw_exe
         in case appid_s of
              None \<Rightarrow> Inr None
            | Some s \<Rightarrow>
                if s = [] then Inr None
                else Inr (Some \<lparr>appid = s, AppName = name, Exe = exe, raw = ent\<rparr>)))"

fun read_entries :: "(pyval \<times> pyval) list \<Rightarrow> shortcut list \<Rightarrow> exn + shortcut list" where
  "read_entries [] entries = Inr entries"
| "read_entries ((k, ent) # rest) entries =
     (case read_entry ent of
        Inl e \<Rightarrow> Inl e
      | Inr None \<Rightarrow> read_entries rest entries
      | Inr (Some r) \<Rightarrow> read_entries rest (entries @ [r]))"

text \<open>\<^verbatim>\<open>obj.items()\<close>\<close>

fun py_items :: "pyval \<Rightarrow> exn + (pyval \<times> pyval) list" where
  "py_items (PDict kvs) = Inr kvs"
| "py_items _ = Inl AttributeError"

text \<open>The part of \<^verbatim>\<open>read_shortcuts\<close> after \<^verbatim>\<open>vdf.binary_load\<close>, on the parsed mapping.\<close>

definition read_shortcuts_data :: "pyval \<Rightarrow> exn + shortcut list" where
  "read_shortcuts_data data =
     (case get_either data ''shortcuts'' of Inl e \<Rightarrow> Inl e | Inr s \<Rightarrow>
      case py_items (py_or s (PDict [])) of Inl e \<Rightarrow> Inl e | Inr items \<Rightarrow>
        read_entries items [])"

subsection \<open>Files\<close>

text \<open>
  The file system as the program sees it: the regular files by path, and the paths that
  cannot be opened for reading or for writing. Directories, links and file times are not
  part of this model.
\<close>

record filesystem =
  files :: "string \<Rightarrow> byte list option"
  unreadable :: "string \<Rightarrow> bool"
  unwritable :: "string \<Rightarrow> bool"

definition path_exists :: "filesystem \<Rightarrow> string \<Rightarrow> bool" where
  "path_exists fs p = (files fs p \<noteq> None)"

text \<open>\<^verbatim>\<open>open(p, "rb")\<close> followed by reading the whole file.\<close>

definition read_file :: "filesystem \<Rightarrow> string \<Rightarrow> exn + byte list" where
  "read_file fs p =
     (case files fs p of
        None \<Rightarrow> Inl (OSError ''FileNotFoundError'')
      | Some c \<Rightarrow> if unreadable fs p then Inl (OSError ''PermissionError'') else Inr c)"

text \<open>Opening \<open>p\<close> for writing and storing \<open>c\<close> there.\<close>

definition write_file :: "filesystem \<Rightarrow> string \<Rightarrow> byte list \<Rightarrow> exn + filesystem" where
  "write_file fs p c =
     (if unwritable fs p then Inl (OSError ''PermissionError'')
      else Inr (fs\<lparr>files := (files fs)(p \<mapsto> c)\<rparr>))"

text \<open>
  \<^verbatim>\<open>pathlib\<close>'s \<^verbatim>\<open>dir / name\<close> on POSIX paths, as the text of the resulting path. A path is
  a root (none, \<^verbatim>\<open>/\<close>, or \<^verbatim>\<open>//\<close> for exactly two leading slashes) and its parts, which are
  the pieces between slashes without the empty ones and without \<^verbatim>\<open>.\<close>; a name with a root
  replaces the directory. Two paths of the same text are the same file; the model does not
  hold two different path texts for one file (links, \<^verbatim>\<open>..\<close>, names that differ in case).
\<close>

fun split_on :: "char \<Rightarrow> string \<Rightarrow> string list" where
  "split_on sep [] = [[]]"
| "split_on sep (c # cs) =
     (if c = sep then [] # split_on sep cs
      else (case split_on sep cs of p # ps \<Rightarrow> (c # p) # ps | [] \<Rightarrow> [[c]]))"

definition path_parts :: "string \<Rightarrow> string list" where
  "path_parts s = filter (\<lambda>p. p \<noteq> [] \<and> p \<noteq> ''.'') (split_on CHR ''/'' s)"

definition path_root :: "string \<Rightarrow> string" where
  "path_root s =
     (if take 2 s = ''//'' \<and> take 3 s \<noteq> ''///'' then ''//''
      else if take 1 s = ''/'' then ''/''
      else [])"

fun join_parts :: "string list \<Rightarrow> string" where
  "join_parts [] = []"
| "join_parts [p] = p"
| "join_parts (p # q # qs) = p @ ''/'' @ join_parts (q # qs)"

definition path_render :: "string \<Rightarrow> string list \<Rightarrow> string" where
  "path_render root parts = (if root = [] \<and> parts = [] then ''.'' else root @ join_parts parts)"

definition path_join :: "string \<Rightarrow> string \<Rightarrow> string" where
  "path_join d name =
     (if path_root name \<noteq> [] then path_render (path_root name) (path_parts name)
      else path_render (path_root d) (path_parts d @ path_parts name))"

text \<open>
  \<^verbatim>\<open>read_shortcuts(shortcuts_path)\<close>. The parser \<^verbatim>\<open>vdf.binary_load\<close> is a library function and
  a parameter here: it returns the parsed mapping or raises. Nothing in \<^verbatim>\<open>read_shortcuts\<close>
  catches an exception.
\<close>

definition read_shortcuts ::
  "(byte list \<Rightarrow> exn + pyval) \<Rightarrow> filesystem \<Rightarrow> string \<Rightarrow> exn + shortcut list" where
  "read_shortcuts binary_load fs shortcuts_path =
     (if \<not> path_exists fs shortcuts_path then Inr []
      else case read_file fs shortcuts_path of Inl e \<Rightarrow> Inl e | Inr content \<Rightarrow>
           case binary_load content of Inl e \<Rightarrow> Inl e | Inr data \<Rightarrow>
             read_shortcuts_data data)"

section \<open>The sidecar writer\<close>

text \<open>
  The document \<^verbatim>\<open>default_json\<close> and the text \<^verbatim>\<open>json.dump(default_json, f, indent=2)\<close> writes:
  one member per line, two spaces per nesting level, no newline at the end. A float is kept
  as its \<^verbatim>\<open>repr\<close>; the keys and strings of this document need no escapes, and none is
  modelled.
\<close>

datatype json =
    JInt int
  | JFloat string
  | JStr string
  | JObj "(string \<times> json) list"

definition json_quoted :: "string \<Rightarrow> string" where
  "json_quoted s = CHR 0x22 # s @ [CHR 0x22]"

definition newline_indent :: "nat \<Rightarrow> string" where
  "newline_indent level = CHR 0x0A # replicate (2 * level) CHR '' ''"

fun join_lines :: "nat \<Rightarrow> string list \<Rightarrow> string" where
  "join_lines level [] = []"
| "join_lines level [x] = x"
| "join_lines level (x # y # ys) = x @ '','' @ newline_indent level @ join_lines level (y # ys)"

function json_dumps :: "nat \<Rightarrow> json \<Rightarrow> string" where
  "json_dumps level (JInt i) = str_of_int i"
| "json_dumps level (JFloat r) = r"
| "json_dumps level (JStr s) = json_quoted s"
| "json_dumps level (JObj []) = ''{}''"
| "json_dumps level (JObj (m # ms)) =
     ''{'' @ newline_indent (Suc level)
     @ join_lines (Suc level)
         (map (\<lambda>kv. json_quoted (fst kv) @ '': '' @ json_dumps (Suc level) (snd kv)) (m # ms))
     @ newline_indent level @ ''}''"
  by pat_completeness auto
termination
proof (relation "measure (\<lambda>(level, j). size j)")
  show "wf (measure (\<lambda>(level :: nat, j :: json). size j))" by simp
next
  fix level :: nat and m :: "string \<times> json" and ms kv
  assume mem: "kv \<in> set (m # ms)"
  have "kv \<in> set xs \<Longrightarrow> size_prod (\<lambda>_. 0) size kv < Suc (size_list (size_prod (\<lambda>_. 0) size) xs)"
    for xs :: "(string \<times> json) list"
    by (induction xs) auto
  from this [OF mem]
  have "size_prod (\<lambda>_. 0) size kv < Suc (size_list (size_prod (\<lambda>_. 0) size) (m # ms))" .
  moreover have "size (snd kv) \<le> size_prod (\<lambda>_. 0) size kv" by (cases kv) simp
  ultimately show "((Suc level, snd kv), (level, JObj (m # ms))) \<in> measure (\<lambda>(level, j). size j)"
    by simp
qed

definition default_json :: json where
  "default_json =
     JObj [(''nVersion'', JInt 1),
           (''logoPosition'',
              JObj [(''pinnedPosition'', JStr ''CenterCenter''),
                    (''nWidthPct'', JFloat ''70.0''),
                    (''nHeightPct'', JFloat ''95.0'')])]"

text \<open>Writing text with \<^verbatim>\<open>encoding="utf-8"\<close>, for code points up to U+00FF.\<close>

definition utf8_encode :: "string \<Rightarrow> byte list" where
  "utf8_encode s =
     concat (map (\<lambda>c. let n = (of_char c :: nat) in
                        if n < 128 then [of_nat n]
                        else [of_nat (192 + n div 64), of_nat (128 + n mod 64)]) s)"

text \<open>
  \<^verbatim>\<open>shutil.copy2(src, dst)\<close> between regular files: the source must exist and be another file
  than the destination (\<^verbatim>\<open>SameFileError\<close> otherwise; files are told apart by their path), the
  source is opened for reading and the destination for writing, and the destination receives
  the bytes of the source.
\<close>

definition copy2 :: "filesystem \<Rightarrow> string \<Rightarrow> string \<Rightarrow> exn + filesystem" where
  "copy2 fs src dst =
     (if src = dst \<and> path_exists fs src then Inl (OSError ''SameFileError'')
      else case read_file fs src of
             Inl e \<Rightarrow> Inl e
           | Inr c \<Rightarrow> write_file fs dst c)"

text \<open>
  \<^verbatim>\<open>copy_or_write_json_for_target(grid_dir, source_appid, target_appid)\<close>: the status text
  and the file system afterwards. The whole body is inside \<^verbatim>\<open>try\<close> ... \<^verbatim>\<open>except Exception\<close>.
\<close>

definition copy_or_write_json_for_target ::
  "filesystem \<Rightarrow> string \<Rightarrow> string \<Rightarrow> string \<Rightarrow> exn + (string \<times> filesystem)" where
  "copy_or_write_json_for_target fs grid_dir source_appid target_appid =
     (let src = path_join grid_dir (source_appid @ ''.json'');
          dst = path_join grid_dir (target_appid @ ''.json'')
      in if path_exists fs src then
           (case copy2 fs src dst of
              Inr fs' \<Rightarrow> Inr (''JSON copied'', fs')
            | Inl e \<Rightarrow> Inr (''JSON failed'', fs))
         else
           (case write_file fs dst (utf8_encode (json_dumps 0 default_json)) of
              Inr fs' \<Rightarrow> Inr (''JSON written (default)'', fs')
            | Inl e \<Rightarrow> Inr (''JSON failed'', fs)))"

section \<open>The artwork fetcher\<close>

text \<open>
  The network as the program sees it: \<^verbatim>\<open>requests.get(url, ..., stream=True)\<close> raises or
  gives a response with a status code and a body stream; \<^verbatim>\<open>iter_content\<close> yields the chunks
  of the stream in order and may raise where the stream holds an exception.
\<close>

record response =
  status_code :: int
  stream :: "(exn + byte list) list"

text \<open>The loop over \<^verbatim>\<open>r.iter_content(8192)\<close>: whether it ran to the end, and the bytes
  written up to there. Empty chunks are skipped.\<close>

fun write_chunks :: "(exn + byte list) list \<Rightarrow> byte list \<Rightarrow> bool \<times> byte list" where
  "write_chunks [] written = (True, written)"
| "write_chunks (Inl e # rest) written = (False, written)"
| "write_chunks (Inr chunk # rest) written =
     write_chunks rest (if chunk \<noteq> [] then written @ chunk else written)"

text \<open>
  \<^verbatim>\<open>download_to_file(url, out_path)\<close>. A file that cannot be opened for writing is left as
  it is; once opened it is truncated, and it keeps what was written when the stream raises.
\<close>

definition download_to_file ::
  "(string \<Rightarrow> exn + response) \<Rightarrow> filesystem \<Rightarrow> string \<Rightarrow> string \<Rightarrow> exn + (bool \<times> filesystem)" where
  "download_to_file net fs url out_path =
     (case net url of
        Inl e \<Rightarrow> Inr (False, fs)
      | Inr r \<Rightarrow>
          if status_code r \<noteq> 200 then Inr (False, fs)
          else if unwritable fs out_path then Inr (False, fs)
          else (let (ok, written) = write_chunks (stream r) []
                in Inr (ok, fs\<lparr>files := (files fs)(out_path \<mapsto> written)\<rparr>)))"

section \<open>The directory resolver\<close>

text \<open>
  \<^verbatim>\<open>str.isdigit\<close> on text up to U+00FF: the text is not empty and every character is one of
  0 to 9 or one of the superscripts U+00B2, U+00B3, U+00B9, which Unicode counts as digits.
\<close>

definition is_digit_char :: "char \<Rightarrow> bool" where
  "is_digit_char c = (let n = (of_char c :: nat) in
     (48 \<le> n \<and> n \<le> 57) \<or> n = 178 \<or> n = 179 \<or> n = 185)"

definition str_isdigit :: "string \<Rightarrow> bool" where
  "str_isdigit s = (s \<noteq> [] \<and> list_all is_digit_char s)"

text \<open>
  \<^verbatim>\<open>find_steam_userdata()\<close>. The base directory is given by its path and its listing:
  \<open>None\<close> when it does not exist, otherwise its entries as pairs of a name and whether the
  entry is a directory, in the order the system lists them. \<^verbatim>\<open>sorted\<close> orders the entries of
  one directory by name, character by character.
\<close>

definition find_steam_userdata ::
  "string \<Rightarrow> (string \<times> bool) list option \<Rightarrow> (string \<times> string) option" where
  "find_steam_userdata base listing =
     (case listing of
        None \<Rightarrow> None
      | Some es \<Rightarrow>
          (case find (\<lambda>entry. snd entry \<and> str_isdigit (fst entry)) (sort_key fst es) of
             None \<Rightarrow> None
           | Some entry \<Rightarrow> Some (fst entry, path_join base (fst entry))))"

section \<open>The apply action\<close>

text \<open>
  \<^verbatim>\<open>on_apply\<close>, with the window reduced to what the method reads: the selected row
  (\<open>-1\<close> when nothing is selected), the text of the input field, the loaded shortcuts and the
  grid directory. The result holds the file system afterwards, the URLs requested in order,
  and what the window shows: a warning dialog, or the outcome of the four downloads and of
  the sidecar.
\<close>

record window =
  current_row :: int
  appid_input :: string
  shortcuts :: "shortcut list"
  grid_dir :: string

datatype shown =
    Warning string string
  | Results "bool list" string

record outcome =
  fs_after :: filesystem
  requested :: "string list"
  display :: shown

definition cdn_url :: "string \<Rightarrow> string \<Rightarrow> string" where
  "cdn_url source_appid asset = ''https://steamcdn-a.akamaihd.net/steam/apps/'' @ source_appid @ ''/'' @ asset"

definition on_apply ::
  "(string \<Rightarrow> exn + response) \<Rightarrow> filesystem \<Rightarrow> window \<Rightarrow> exn + outcome" where
  "on_apply net fs w =
     (if current_row w < 0 then
        Inr \<lparr>fs_after = fs, requested = [],
             display = Warning ''Select an entry'' ''Please select a non-Steam shortcut from the list.''\<rparr>
      else
        (let source_appid = str_strip (appid_input w) in
         if \<not> str_isdigit source_appid then
           Inr \<lparr>fs_after = fs, requested = [],
                display = Warning ''Invalid AppID''
                  ''Please enter a valid numeric Steam AppID to copy from.''\<rparr>
         else if \<not> nat (current_row w) < length (shortcuts w) then Inl IndexError
         else
           (let target_id = appid (shortcuts w ! nat (current_row w));
                cover_url = cdn_url source_appid ''library_600x900_2x.jpg'';
                wide_url = cdn_url source_appid ''library_411x184.jpg'';
                hero_url = cdn_url source_appid ''library_hero.jpg'';
                logo_url = cdn_url source_appid ''logo.png'';
                dest_cover = path_join (grid_dir w) (target_id @ ''p.jpg'');
                dest_wide = path_join (grid_dir w) (target_id @ ''.jpg'');
                dest_hero = path_join (grid_dir w) (target_id @ ''_hero.jpg'');
                dest_logo = path_join (grid_dir w) (target_id @ ''_logo.png'')
            in case download_to_file net fs cover_url dest_cover of Inl e \<Rightarrow> Inl e | Inr (b1, fs1) \<Rightarrow>
               case download_to_file net fs1 wide_url dest_wide of Inl e \<Rightarrow> Inl e | Inr (b2, fs2) \<Rightarrow>
               case download_to_file net fs2 hero_url dest_hero of Inl e \<Rightarrow> Inl e | Inr (b3, fs3) \<Rightarrow>
               case download_to_file net fs3 logo_url dest_logo of Inl e \<Rightarrow> Inl e | Inr (b4, fs4) \<Rightarrow>
               case copy_or_write_json_for_target fs4 (grid_dir w) source_appid target_id of
                 Inl e \<Rightarrow> Inl e
               | Inr (json_result, fs5) \<Rightarrow>
                   Inr \<lparr>fs_after = fs5,
                        requested = [cover_url, wide_url, hero_url, logo_url],
                        display = Results [b1, b2, b3, b4] json_result\<rparr>)))"

section \<open>Properties of the number texts\<close>

text \<open>\<^verbatim>\<open>str\<close> of an integer is never empty, and \<^verbatim>\<open>int\<close> reads it back as long as it stays
  within the digit limit: the text is the decimal numeral of the integer.\<close>

lemma dec_digits_nonempty: "dec_digits n \<noteq> []"
  by (subst dec_digits.simps) simp

lemma str_of_int_nonempty: "str_of_int i \<noteq> []"
  by (simp add: str_of_int_def dec_digits_nonempty)

lemma digit_char_props:
  assumes "d < 10"
  shows "is_ascii_digit (digit_char d) \<and> digit_val (digit_char d) = d \<and> \<not> is_int_space (digit_char d)"
proof -
  from assms have "d \<in> {0, 1, 2, 3, 4, 5, 6, 7, 8, 9}" by auto
  then show ?thesis
    by (auto simp: digit_char_def is_ascii_digit_def digit_val_def is_int_space_def)
qed

lemma scan_digits_all:
  "list_all is_ascii_digit xs \<Longrightarrow>
     scan_digits acc xs = Some (foldl (\<lambda>a c. 10 * a + digit_val c) acc xs)"
  by (induction xs arbitrary: acc) simp_all

lemma dec_digits_all: "list_all is_ascii_digit (dec_digits n)"
proof (induction n rule: dec_digits.induct)
  case (1 n)
  show ?case
  proof (cases "n < 10")
    case True
    then show ?thesis by (subst dec_digits.simps) (simp add: digit_char_props)
  next
    case False
    have "n mod 10 < 10" by simp
    with 1 False show ?thesis by (subst dec_digits.simps) (simp add: digit_char_props)
  qed
qed

lemma dec_digits_value: "foldl (\<lambda>a c. 10 * a + digit_val c) 0 (dec_digits n) = n"
proof (induction n rule: dec_digits.induct)
  case (1 n)
  show ?case
  proof (cases "n < 10")
    case True
    then show ?thesis by (subst dec_digits.simps) (simp add: digit_char_props)
  next
    case False
    have "n mod 10 < 10" by simp
    with 1 False show ?thesis by (subst dec_digits.simps) (simp add: digit_char_props)
  qed
qed

lemma parse_unsigned_dec_digits: "parse_unsigned (dec_digits n) = Some n"
proof -
  obtain c cs where cs: "dec_digits n = c # cs"
    using dec_digits_nonempty [of n] by (cases "dec_digits n") auto
  have "is_ascii_digit c" using dec_digits_all [of n] by (simp add: cs)
  moreover have "scan_digits 0 (dec_digits n) = Some n"
    using scan_digits_all [OF dec_digits_all, of 0 n] by (simp add: dec_digits_value)
  ultimately show ?thesis by (simp add: parse_unsigned_def cs)
qed

lemma int_strip_no_space:
  assumes "s \<noteq> []" "\<not> is_int_space (hd s)" "\<not> is_int_space (last s)"
  shows "int_strip s = s"
proof -
  from assms(1,2) have 1: "dropWhile is_int_space s = s" by (cases s) auto
  from assms(1,3) have 2: "dropWhile is_int_space (rev s) = rev s"
    by (cases "rev s") (auto simp: last_rev [symmetric] simp del: last_rev) 
  show ?thesis by (simp add: int_strip_def 1 2)
qed


lemma ascii_digit_plain:
  "is_ascii_digit c \<Longrightarrow> \<not> is_int_space c \<and> c \<noteq> CHR ''-'' \<and> c \<noteq> CHR ''+''"
  by (auto simp: is_ascii_digit_def is_int_space_def Let_def)

lemma dec_digits_ends:
  "\<not> is_int_space (hd (dec_digits n)) \<and> \<not> is_int_space (last (dec_digits n))
   \<and> hd (dec_digits n) \<noteq> CHR ''-'' \<and> hd (dec_digits n) \<noteq> CHR ''+''"
proof -
  have ne: "dec_digits n \<noteq> []" by (rule dec_digits_nonempty)
  then have "hd (dec_digits n) \<in> set (dec_digits n)" "last (dec_digits n) \<in> set (dec_digits n)"
    by simp_all
  with dec_digits_all [of n] have "is_ascii_digit (hd (dec_digits n))" "is_ascii_digit (last (dec_digits n))"
    by (simp_all add: list_all_iff)
  then show ?thesis by (simp add: ascii_digit_plain)
qed

lemma dec_digits_filter: "filter is_ascii_digit (dec_digits n) = dec_digits n"
  using dec_digits_all [of n] by (simp add: list_all_iff)

lemma int_of_text_str_of_int:
  assumes len: "length (dec_digits (nat \<bar>i\<bar>)) \<le> max_str_digits"
  shows "int_of_text (str_of_int i) = Inr i"
proof (cases "i < 0")
  case False
  with len have len': "\<not> max_str_digits < length (dec_digits (nat i))" by simp
  let ?s = "dec_digits (nat i)"
  have ne: "?s \<noteq> []" by (rule dec_digits_nonempty)
  have strip: "int_strip ?s = ?s"
    using int_strip_no_space [OF ne] dec_digits_ends [of "nat i"] by simp
  obtain c cs where cs: "?s = c # cs" using ne by (cases ?s) auto
  have "c \<noteq> CHR ''-'' \<and> c \<noteq> CHR ''+''" using dec_digits_ends [of "nat i"] by (simp add: cs)
  moreover have "int_strip (c # cs) = c # cs" using strip by (simp add: cs)
  moreover have "parse_unsigned (c # cs) = Some (nat i)"
    using parse_unsigned_dec_digits [of "nat i"] by (simp add: cs)
  moreover have "filter is_ascii_digit (c # cs) = c # cs"
    using dec_digits_filter [of "nat i"] unfolding cs .
  moreover have "\<not> max_str_digits < length (c # cs)"
    using len' unfolding cs .
  ultimately have "int_of_text (c # cs) = Inr (int (nat i))"
    by (simp add: int_of_text_def Let_def del: filter.simps)
  then have "int_of_text ?s = Inr (int (nat i))" by (simp add: cs)
  with False show ?thesis by (simp add: str_of_int_def)
next
  case True
  let ?d = "dec_digits (nat (- i))"
  let ?s = "CHR ''-'' # ?d"
  have ne: "?d \<noteq> []" by (rule dec_digits_nonempty)
  have "\<not> is_int_space (last ?s)" using ne dec_digits_ends [of "nat (- i)"] by simp
  moreover have "\<not> is_int_space (hd ?s)" by (simp add: is_int_space_def)
  ultimately have strip: "int_strip ?s = ?s" using int_strip_no_space [of ?s] by simp
  from len True have "\<not> max_str_digits < length (filter is_ascii_digit ?d)"
    by (simp add: dec_digits_filter)
  then have "int_of_text ?s = Inr (- int (nat (- i)))"
    using parse_unsigned_dec_digits [of "nat (- i)"] by (simp add: int_of_text_def strip Let_def)
  with True show ?thesis by (simp add: str_of_int_def)
qed

text \<open>In particular \<^verbatim>\<open>int\<close> reads every canonical identifier back.\<close>

lemma dec_digits_length: "n < 10 ^ Suc k \<Longrightarrow> length (dec_digits n) \<le> Suc k"
proof (induction k arbitrary: n)
  case 0
  then show ?case by (subst dec_digits.simps) simp
next
  case (Suc k)
  show ?case
  proof (cases "n < 10")
    case True
    then show ?thesis by (subst dec_digits.simps) simp
  next
    case False
    from Suc.prems have "n div 10 < 10 ^ Suc k" by (simp add: less_mult_imp_div_less)
    from Suc.IH [OF this] False show ?thesis by (subst dec_digits.simps) simp
  qed
qed

lemma int_of_text_canonical:
  assumes "0 \<le> n" "n < 2 ^ 32"
  shows "int_of_text (str_of_int n) = Inr n"
proof -
  from assms have "nat \<bar>n\<bar> < 10 ^ Suc 9" by simp
  from dec_digits_length [OF this] show ?thesis
    by (intro int_of_text_str_of_int) (simp add: max_str_digits_def)
qed

section \<open>Properties of the identifier normalizer\<close>

lemma and_mask32: "(x::int) AND 0xFFFFFFFF = x mod 2 ^ 32"
proof -
  have m: "(0xFFFFFFFF::int) = mask 32" by (simp add: mask_eq_exp_minus_1)
  have "x AND mask 32 = x mod 2 ^ 32"
    by (simp only: take_bit_eq_mask [symmetric] take_bit_eq_mod)
  with m show ?thesis by simp
qed

lemma int_from_bytes_little_bounds:
  "0 \<le> int_from_bytes_little bs \<and> int_from_bytes_little bs < 256 ^ length bs"
proof (induction bs)
  case Nil
  then show ?case by simp
next
  case (Cons b bs)
  have "uint b < 256" using uint_bounded [of b] by simp
  moreover have "0 \<le> uint b" by simp
  ultimately show ?case using Cons by simp
qed

lemma normalize_bytes:
  "normalize_appid_field (PBytes b) = Inr (Some (str_of_int (int_from_bytes_little b mod 2 ^ 32)))"
  by (simp add: normalize_appid_field_def and_mask32)

lemma normalize_int:
  "normalize_appid_field (PInt v) = Inr (Some (str_of_int (v mod 2 ^ 32)))"
  by (simp add: normalize_appid_field_def and_mask32)

lemma normalize_none: "normalize_appid_field PNone = Inr None"
  by (simp add: normalize_appid_field_def)

lemma int_strip_braced: "int_strip (CHR ''{'' # xs @ ''}'') = CHR ''{'' # xs @ ''}''"
  by (simp add: int_strip_def is_int_space_def)

lemma int_of_text_braced: "int_of_text (CHR ''{'' # xs @ ''}'') = Inl ValueError"
  by (simp add: int_of_text_def int_strip_braced parse_unsigned_def is_ascii_digit_def)

lemma int_of_text_Inl: "int_of_text s = Inl e \<Longrightarrow> e = ValueError"
  by (auto simp: int_of_text_def Let_def split: option.splits prod.splits if_splits)

lemma normalize_text:
  "normalize_appid_field (PStr s) =
     (case int_of_text s of Inl e \<Rightarrow> Inr None | Inr v \<Rightarrow> Inr (Some (str_of_int (v mod 2 ^ 32))))"
  by (simp add: normalize_appid_field_def and_mask32 split: sum.splits)

lemma normalize_dict: "normalize_appid_field (PDict kvs) = Inr None"
  by (simp add: normalize_appid_field_def int_of_text_braced)

text \<open>Whatever the input, the result is \<^verbatim>\<open>None\<close> or the decimal text of a 32-bit unsigned
  number; in particular the unmasked last resort never produces a result.\<close>

lemma normalize_cases:
  "normalize_appid_field x = Inr None \<or>
   (\<exists>n. 0 \<le> n \<and> n < 2 ^ 32 \<and> normalize_appid_field x = Inr (Some (str_of_int n)))"
proof (cases x)
  case PNone
  then show ?thesis by (simp add: normalize_none)
next
  case (PInt v)
  have "0 \<le> v mod 2 ^ 32 \<and> v mod 2 ^ 32 < 2 ^ 32" by simp
  then show ?thesis unfolding PInt normalize_int by blast
next
  case (PBytes b)
  have "0 \<le> int_from_bytes_little b mod 2 ^ 32 \<and> int_from_bytes_little b mod 2 ^ 32 < 2 ^ 32"
    by simp
  then show ?thesis unfolding PBytes normalize_bytes by blast
next
  case (PStr s)
  show ?thesis
  proof (cases "int_of_text s")
    case (Inl e)
    then show ?thesis by (simp add: PStr normalize_text)
  next
    case (Inr v)
    have "0 \<le> v mod 2 ^ 32 \<and> v mod 2 ^ 32 < 2 ^ 32
        \<and> normalize_appid_field x = Inr (Some (str_of_int (v mod 2 ^ 32)))"
      by (simp add: PStr normalize_text Inr)
    then show ?thesis by blast
  qed
next
  case (PDict kvs)
  then show ?thesis by (simp add: normalize_dict)
qed

text \<open>
  Claim C1. For every sequence \<open>b\<close> of four bytes, \<^verbatim>\<open>normalize_appid_field(b)\<close> is the decimal
  text of the number read from \<open>b\<close> in little-endian order: the first byte counts once, the
  second 2^8 times, the third 2^16 times, the fourth 2^24 times. That number is below 2^32,
  so the reduction modulo 2^32 leaves it as it is.
\<close>

theorem normalize_four_bytes_little_endian:
  assumes "length b = 4"
  shows "normalize_appid_field (PBytes b) = Inr (Some (str_of_int (int_from_bytes_little b)))
     \<and> int_from_bytes_little b mod 2 ^ 32 = int_from_bytes_little b
     \<and> int_from_bytes_little b =
         uint (b ! 0) + 2 ^ 8 * uint (b ! 1) + 2 ^ 16 * uint (b ! 2) + 2 ^ 24 * uint (b ! 3)"
proof -
  from assms obtain b0 b1 b2 b3 where b: "b = [b0, b1, b2, b3]"
    by (cases b; simp; cases "tl b"; simp; cases "tl (tl b)"; simp; cases "tl (tl (tl b))"; simp)
  have "0 \<le> int_from_bytes_little b \<and> int_from_bytes_little b < 2 ^ 32"
    using int_from_bytes_little_bounds [of b] assms by simp
  then have m: "int_from_bytes_little b mod 2 ^ 32 = int_from_bytes_little b" by simp
  show ?thesis using m by (simp add: normalize_bytes) (simp add: b)
qed

theorem normalize_four_bytes_little_endian_witness:
  "length [1, 2, 3, 4 :: byte] = 4
   \<and> normalize_appid_field (PBytes [1, 2, 3, 4]) = Inr (Some ''67305985'')"
  using normalize_four_bytes_little_endian [of "[1, 2, 3, 4]"]
  by (simp add: str_of_int_def dec_digits.simps digit_char_def)

text \<open>
  Claim C2. For every integer \<open>v\<close>, of either sign and any magnitude,
  \<^verbatim>\<open>normalize_appid_field(v)\<close> equals \<^verbatim>\<open>normalize_appid_field(v & 0xFFFFFFFF)\<close>, and both are
  the decimal text of \<open>v\<close> reduced modulo 2^32.
\<close>

theorem normalize_int_mask_invariant:
  "normalize_appid_field (PInt v) = normalize_appid_field (PInt (v AND 0xFFFFFFFF))
   \<and> normalize_appid_field (PInt v) = Inr (Some (str_of_int (v mod 2 ^ 32)))"
  by (simp add: normalize_int and_mask32)

text \<open>
  Claim C3. \<^verbatim>\<open>normalize_appid_field\<close> returns on every input and never raises; on \<^verbatim>\<open>None\<close>
  and on every text that \<^verbatim>\<open>int\<close> rejects it returns \<^verbatim>\<open>None\<close>; and every result is either
  \<^verbatim>\<open>None\<close> or a canonical identifier.
\<close>

theorem normalize_total_never_raises:
  "(\<exists>r. normalize_appid_field x = Inr r)
   \<and> normalize_appid_field PNone = Inr None
   \<and> (\<forall>s. int_of_text s = Inl ValueError \<longrightarrow> normalize_appid_field (PStr s) = Inr None)
   \<and> (normalize_appid_field x = Inr None \<or>
       (\<exists>n. 0 \<le> n \<and> n < 2 ^ 32 \<and> normalize_appid_field x = Inr (Some (str_of_int n))))"
  using normalize_cases [of x] by (auto simp: normalize_text normalize_none)

theorem normalize_total_never_raises_witness:
  "int_of_text ''abc'' = Inl ValueError
   \<and> normalize_appid_field (PStr ''abc'') = Inr None
   \<and> normalize_appid_field PNone = Inr None"
  using normalize_total_never_raises [of "PStr ''abc''"]
  by (simp add: int_of_text_def int_strip_def is_int_space_def parse_unsigned_def
      is_ascii_digit_def)

section \<open>Properties of the registry reader\<close>

lemma normalize_Some_nonempty: "normalize_appid_field v = Inr (Some s) \<Longrightarrow> s \<noteq> []"
  using normalize_cases [of v] by (auto simp: str_of_int_nonempty)

lemma normalize_Inr: "\<exists>r. normalize_appid_field v = Inr r"
  using normalize_cases [of v] by auto

lemma get_either_dict:
  "get_either (PDict kvs) key =
     Inr (py_or (dict_get kvs (PStr key)) (dict_get kvs (PBytes (bytes_lit key))))"
  by (simp add: get_either_def py_or_def)

lemma get_either_appid: "get_either (PDict kvs) ''appid'' = Inr (appid_of_entry kvs)"
  by (simp add: get_either_dict appid_of_entry_def)

lemma read_entry_skip:
  "normalize_appid_field (appid_of_entry kvs) = Inr None \<Longrightarrow> read_entry (PDict kvs) = Inr None"
  by (simp add: read_entry_def get_either_appid) (simp add: get_either_dict Let_def)

lemma read_entry_keep:
  assumes "normalize_appid_field (appid_of_entry kvs) = Inr (Some s)"
  shows "\<exists>nm ex. read_entry (PDict kvs) = Inr (Some \<lparr>appid = s, AppName = nm, Exe = ex, raw = PDict kvs\<rparr>)"
  using assms normalize_Some_nonempty [OF assms]
  by (simp add: read_entry_def get_either_appid) (simp add: get_either_dict Let_def)

lemma read_entries_dicts:
  "\<exists>recs. read_entries (map (\<lambda>(k, kvs). (k, PDict kvs)) ditems) acc = Inr (acc @ recs)
     \<and> map raw recs = map PDict (filter (\<lambda>kvs. normalize_appid_field (appid_of_entry kvs) \<noteq> Inr None) (map snd ditems))
     \<and> (\<forall>r \<in> set recs. \<exists>kvs. raw r = PDict kvs \<and> normalize_appid_field (appid_of_entry kvs) = Inr (Some (appid r)))"
proof (induction ditems arbitrary: acc)
  case Nil
  then show ?case by simp
next
  case (Cons d ditems)
  obtain k kvs where d: "d = (k, kvs)" by (cases d)
  show ?case
  proof (cases "normalize_appid_field (appid_of_entry kvs) = Inr None")
    case True
    from Cons.IH [of acc] show ?thesis by (simp add: d True read_entry_skip [OF True])
  next
    case False
    then obtain s where s: "normalize_appid_field (appid_of_entry kvs) = Inr (Some s)"
      using normalize_Inr [of "appid_of_entry kvs"] by (cases "normalize_appid_field (appid_of_entry kvs)") auto
    from read_entry_keep [OF s] obtain nm ex where
      r: "read_entry (PDict kvs) = Inr (Some \<lparr>appid = s, AppName = nm, Exe = ex, raw = PDict kvs\<rparr>)"
      by blast
    let ?r = "\<lparr>appid = s, AppName = nm, Exe = ex, raw = PDict kvs\<rparr>"
    from Cons.IH [of "acc @ [?r]"] obtain recs where
      recs: "read_entries (map (\<lambda>(k, kvs). (k, PDict kvs)) ditems) (acc @ [?r]) = Inr ((acc @ [?r]) @ recs)"
        "map raw recs = map PDict (filter (\<lambda>kvs. normalize_appid_field (appid_of_entry kvs) \<noteq> Inr None) (map snd ditems))"
        "\<forall>r \<in> set recs. \<exists>kvs. raw r = PDict kvs \<and> normalize_appid_field (appid_of_entry kvs) = Inr (Some (appid r))"
      by blast
    show ?thesis
      by (rule exI [of _ "?r # recs"]) (simp add: d r recs s)
  qed
qed

lemma read_entries_origin:
  "read_entries items acc = Inr recs \<Longrightarrow> r \<in> set recs \<Longrightarrow>
     r \<in> set acc \<or> read_entry (raw r) = Inr (Some r)"
proof (induction items acc rule: read_entries.induct)
  case (1 entries)
  then show ?case by simp
next
  case (2 k ent rest entries)
  show ?case
  proof (cases "read_entry ent")
    case (Inl e)
    with 2 show ?thesis by simp
  next
    case (Inr o1)
    show ?thesis
    proof (cases o1)
      case None
      with 2 Inr show ?thesis by simp
    next
      case (Some r')
      have "raw r' = ent" using Inr Some
        by (auto simp: read_entry_def Let_def split: sum.splits option.splits if_splits)
      with 2 Inr Some show ?thesis by auto
    qed
  qed
qed


lemma read_shortcuts_data_entries:
  "read_shortcuts_data (PDict [(PStr ''shortcuts'', PDict items)]) = read_entries items []"
  by (cases items) (simp_all add: read_shortcuts_data_def get_either_dict dict_get_def py_or_def bytes_lit_def)

text \<open>
  Claim C4, as the code has it. For every parsed registry whose entries are field mappings,
  \<^verbatim>\<open>read_shortcuts\<close> returns, in the order of the registry, one record for each entry whose
  selected identifier value normalizes to an identifier, and no other record; the selected
  value is the one under the text key \<^verbatim>\<open>appid\<close> when that is truthy and otherwise the one
  under the byte-string key. Every record carries the normalized identifier, which is the
  decimal text of a number below 2^32.
\<close>

theorem read_shortcuts_keeps_normalizable_entries:
  "\<exists>recs. read_shortcuts_data
             (PDict [(PStr ''shortcuts'', PDict (map (\<lambda>(k, kvs). (k, PDict kvs)) ditems))]) = Inr recs
     \<and> map raw recs =
         map PDict (filter (\<lambda>kvs. normalize_appid_field (appid_of_entry kvs) \<noteq> Inr None)
                           (map snd ditems))
     \<and> (\<forall>r \<in> set recs. \<exists>kvs n. raw r = PDict kvs
           \<and> normalize_appid_field (appid_of_entry kvs) = Inr (Some (appid r))
           \<and> 0 \<le> n \<and> n < 2 ^ 32 \<and> appid r = str_of_int n)"
proof -
  from read_entries_dicts [of ditems "[]"] obtain recs where
    recs: "read_entries (map (\<lambda>(k, kvs). (k, PDict kvs)) ditems) [] = Inr recs"
      "map raw recs = map PDict (filter (\<lambda>kvs. normalize_appid_field (appid_of_entry kvs) \<noteq> Inr None) (map snd ditems))"
      "\<forall>r \<in> set recs. \<exists>kvs. raw r = PDict kvs \<and> normalize_appid_field (appid_of_entry kvs) = Inr (Some (appid r))"
    by auto
  have "\<exists>kvs n. raw r = PDict kvs
           \<and> normalize_appid_field (appid_of_entry kvs) = Inr (Some (appid r))
           \<and> 0 \<le> n \<and> n < 2 ^ 32 \<and> appid r = str_of_int n" if "r \<in> set recs" for r
  proof -
    from recs(3) that obtain kvs where
      k: "raw r = PDict kvs" "normalize_appid_field (appid_of_entry kvs) = Inr (Some (appid r))"
      by blast
    from normalize_cases [of "appid_of_entry kvs"] k(2) obtain n where
      "0 \<le> n" "n < 2 ^ 32" "appid r = str_of_int n" by auto
    with k show ?thesis by blast
  qed
  with recs(1,2) show ?thesis by (auto simp: read_shortcuts_data_entries)
qed

theorem read_shortcuts_keeps_normalizable_entries_witness:
  "\<exists>recs. read_shortcuts_data (PDict [(PStr ''shortcuts'', PDict [
      (PStr ''0'', PDict [(PStr ''appid'', PInt (- 1)), (PStr ''AppName'', PStr ''A'')]),
      (PStr ''1'', PDict [(PStr ''AppName'', PStr ''B'')]),
      (PStr ''2'', PDict [(PStr ''appid'', PBytes [1, 0, 0, 128])]),
      (PStr ''3'', PDict [(PStr ''appid'', PStr ''xyz'')]),
      (PStr ''4'', PDict [(PStr ''appid'', PStr ''12'')])])]) = Inr recs
    \<and> length recs = 3 \<and> map appid recs = [''4294967295'', ''2147483649'', ''12'']"
  using read_shortcuts_keeps_normalizable_entries [of "[
      (PStr ''0'', [(PStr ''appid'', PInt (- 1)), (PStr ''AppName'', PStr ''A'')]),
      (PStr ''1'', [(PStr ''AppName'', PStr ''B'')]),
      (PStr ''2'', [(PStr ''appid'', PBytes [1, 0, 0, 128])]),
      (PStr ''3'', [(PStr ''appid'', PStr ''xyz'')]),
      (PStr ''4'', [(PStr ''appid'', PStr ''12'')])]"]
  by (simp add: read_shortcuts_data_entries read_entry_def get_either_dict dict_get_def py_or_def
      bytes_lit_def normalize_int normalize_bytes normalize_text normalize_none int_of_text_def
      int_strip_def is_int_space_def max_str_digits_def parse_unsigned_def is_ascii_digit_def
      digit_val_def
      str_of_int_def dec_digits.simps digit_char_def)

text \<open>
  Claim C4 as the specification words it fails for a stored identifier that is falsy: the
  entry below stores the integer 0, which \<^verbatim>\<open>normalize_appid_field\<close> turns into the
  identifier \<^verbatim>\<open>"0"\<close>, and yet the entry is left out.
\<close>

theorem zero_identifier_entry_dropped:
  "dict_get [(PStr ''appid'', PInt 0), (PStr ''AppName'', PStr ''Game''), (PStr ''Exe'', PStr ''/bin/game'')]
       (PStr ''appid'') = PInt 0
   \<and> normalize_appid_field (PInt 0) = Inr (Some ''0'')
   \<and> read_shortcuts_data (PDict [(PStr ''shortcuts'', PDict [(PStr ''0'',
        PDict [(PStr ''appid'', PInt 0), (PStr ''AppName'', PStr ''Game''), (PStr ''Exe'', PStr ''/bin/game'')])])])
      = Inr []"
  by (simp add: read_shortcuts_data_entries read_entry_def get_either_dict dict_get_def py_or_def bytes_lit_def
     normalize_int normalize_none str_of_int_def dec_digits.simps digit_char_def)

lemma read_file_exists: "read_file fs p = Inr c \<Longrightarrow> path_exists fs p"
  by (auto simp: read_file_def path_exists_def split: option.splits)

text \<open>
  Claim C5, as the code has it. \<^verbatim>\<open>read_shortcuts\<close> returns the empty list for a path that
  does not exist; it fails with the parser's exception when the content of the file cannot be
  parsed; and it returns a list whenever the parsed registry maps its keys to field mappings,
  whatever those mappings hold or lack.
\<close>

theorem read_shortcuts_failure_levels:
  "(\<not> path_exists fs p \<longrightarrow> read_shortcuts binary_load fs p = Inr [])
   \<and> (read_file fs p = Inr c \<and> binary_load c = Inl e \<longrightarrow> read_shortcuts binary_load fs p = Inl e)
   \<and> (read_file fs p = Inr c
        \<and> binary_load c = Inr (PDict [(PStr ''shortcuts'', PDict (map (\<lambda>(k, kvs). (k, PDict kvs)) ditems))])
      \<longrightarrow> (\<exists>recs. read_shortcuts binary_load fs p = Inr recs))"
proof (intro conjI impI)
  assume "\<not> path_exists fs p"
  then show "read_shortcuts binary_load fs p = Inr []" by (simp add: read_shortcuts_def)
next
  assume a: "read_file fs p = Inr c \<and> binary_load c = Inl e"
  then have "path_exists fs p" by (simp add: read_file_exists)
  with a show "read_shortcuts binary_load fs p = Inl e" by (simp add: read_shortcuts_def)
next
  assume a: "read_file fs p = Inr c
        \<and> binary_load c = Inr (PDict [(PStr ''shortcuts'', PDict (map (\<lambda>(k, kvs). (k, PDict kvs)) ditems))])"
  then have ex: "path_exists fs p" by (simp add: read_file_exists)
  from read_entries_dicts [of ditems "[]"] obtain recs where
    "read_entries (map (\<lambda>(k, kvs). (k, PDict kvs)) ditems) [] = Inr recs" by auto
  with a ex show "\<exists>recs. read_shortcuts binary_load fs p = Inr recs"
    by (simp add: read_shortcuts_def read_shortcuts_data_entries)
qed

text \<open>
  Claim C5 as the specification words it, "malformed individual entries are tolerated", fails
  for an entry that is not a field mapping: in the registry below the key \<^verbatim>\<open>"0"\<close> holds a
  text, \<^verbatim>\<open>ent.get\<close> raises \<^verbatim>\<open>AttributeError\<close>, and nothing catches it.
\<close>

theorem non_mapping_entry_fails_read:
  "read_shortcuts
     (\<lambda>content. if content = [0, 115, 104, 111, 114, 116, 99, 117, 116, 115, 0, 1, 48, 0, 111, 111, 112, 115, 0, 8, 8]
                 then Inr (PDict [(PStr ''shortcuts'', PDict [(PStr ''0'', PStr ''oops'')])])
                 else Inl (ParseError ''SyntaxError''))
     \<lparr>files = [''shortcuts.vdf'' \<mapsto> [0, 115, 104, 111, 114, 116, 99, 117, 116, 115, 0, 1, 48, 0, 111, 111, 112, 115, 0, 8, 8]],
      unreadable = (\<lambda>p. False), unwritable = (\<lambda>p. False)\<rparr>
     ''shortcuts.vdf'' = Inl AttributeError"
  by (simp add: read_shortcuts_def path_exists_def read_file_def read_shortcuts_data_entries
      read_entry_def get_either_def)


theorem read_shortcuts_failure_levels_witness:
  "(let binary_load = (\<lambda>content. if content = [0, 115, 104, 111, 114, 116, 99, 117, 116, 115, 0, 0, 48, 0, 1, 65, 112, 112, 78, 97, 109, 101, 0, 71, 97, 109, 101, 0, 8, 8, 8]
                 then Inr (PDict [(PStr ''shortcuts'', PDict [(PStr ''0'', PDict [(PStr ''AppName'', PStr ''Game'')])])])
                 else Inl (ParseError ''SyntaxError''));
        fs = \<lparr>files = [''good.vdf'' \<mapsto> [0, 115, 104, 111, 114, 116, 99, 117, 116, 115, 0, 0, 48, 0, 1, 65, 112, 112, 78, 97, 109, 101, 0, 71, 97, 109, 101, 0, 8, 8, 8], ''bad.vdf'' \<mapsto> [255]],
      unreadable = (\<lambda>p. False), unwritable = (\<lambda>p. False)\<rparr>
    in \<not> path_exists fs ''none.vdf''
       \<and> read_shortcuts binary_load fs ''none.vdf'' = Inr []
       \<and> read_file fs ''bad.vdf'' = Inr [255]
       \<and> binary_load [255] = Inl (ParseError ''SyntaxError'')
       \<and> read_shortcuts binary_load fs ''bad.vdf'' = Inl (ParseError ''SyntaxError'')
       \<and> read_file fs ''good.vdf'' = Inr [0, 115, 104, 111, 114, 116, 99, 117, 116, 115, 0, 0, 48, 0, 1, 65, 112, 112, 78, 97, 109, 101, 0, 71, 97, 109, 101, 0, 8, 8, 8]
       \<and> read_shortcuts binary_load fs ''good.vdf'' = Inr [])"
  using read_shortcuts_failure_levels [where fs = "\<lparr>files = [''good.vdf'' \<mapsto> [0, 115, 104, 111, 114, 116, 99, 117, 116, 115, 0, 0, 48, 0, 1, 65, 112, 112, 78, 97, 109, 101, 0, 71, 97, 109, 101, 0, 8, 8, 8], ''bad.vdf'' \<mapsto> [255]],
      unreadable = (\<lambda>p. False), unwritable = (\<lambda>p. False)\<rparr>" and p = "''none.vdf''" and binary_load = "(\<lambda>content. if content = [0, 115, 104, 111, 114, 116, 99, 117, 116, 115, 0, 0, 48, 0, 1, 65, 112, 112, 78, 97, 109, 101, 0, 71, 97, 109, 101, 0, 8, 8, 8]
                 then Inr (PDict [(PStr ''shortcuts'', PDict [(PStr ''0'', PDict [(PStr ''AppName'', PStr ''Game'')])])])
                 else Inl (ParseError ''SyntaxError''))"]
    read_shortcuts_failure_levels [where fs = "\<lparr>files = [''good.vdf'' \<mapsto> [0, 115, 104, 111, 114, 116, 99, 117, 116, 115, 0, 0, 48, 0, 1, 65, 112, 112, 78, 97, 109, 101, 0, 71, 97, 109, 101, 0, 8, 8, 8], ''bad.vdf'' \<mapsto> [255]],
      unreadable = (\<lambda>p. False), unwritable = (\<lambda>p. False)\<rparr>" and p = "''bad.vdf''" and c = "[255]" and binary_load = "(\<lambda>content. if content = [0, 115, 104, 111, 114, 116, 99, 117, 116, 115, 0, 0, 48, 0, 1, 65, 112, 112, 78, 97, 109, 101, 0, 71, 97, 109, 101, 0, 8, 8, 8]
                 then Inr (PDict [(PStr ''shortcuts'', PDict [(PStr ''0'', PDict [(PStr ''AppName'', PStr ''Game'')])])])
                 else Inl (ParseError ''SyntaxError''))"
          and e = "ParseError ''SyntaxError''"]
    read_shortcuts_failure_levels [where fs = "\<lparr>files = [''good.vdf'' \<mapsto> [0, 115, 104, 111, 114, 116, 99, 117, 116, 115, 0, 0, 48, 0, 1, 65, 112, 112, 78, 97, 109, 101, 0, 71, 97, 109, 101, 0, 8, 8, 8], ''bad.vdf'' \<mapsto> [255]],
      unreadable = (\<lambda>p. False), unwritable = (\<lambda>p. False)\<rparr>" and p = "''good.vdf''" and c = "[0, 115, 104, 111, 114, 116, 99, 117, 116, 115, 0, 0, 48, 0, 1, 65, 112, 112, 78, 97, 109, 101, 0, 71, 97, 109, 101, 0, 8, 8, 8]" and binary_load = "(\<lambda>content. if content = [0, 115, 104, 111, 114, 116, 99, 117, 116, 115, 0, 0, 48, 0, 1, 65, 112, 112, 78, 97, 109, 101, 0, 71, 97, 109, 101, 0, 8, 8, 8]
                 then Inr (PDict [(PStr ''shortcuts'', PDict [(PStr ''0'', PDict [(PStr ''AppName'', PStr ''Game'')])])])
                 else Inl (ParseError ''SyntaxError''))"
          and ditems = "[(PStr ''0'', [(PStr ''AppName'', PStr ''Game'')])]"]
  by (simp add: Let_def path_exists_def read_file_def read_shortcuts_def read_shortcuts_data_entries
      read_entry_def get_either_dict dict_get_def py_or_def normalize_none bytes_lit_def)

lemma normalize_zero: "normalize_appid_field (PInt 0) = Inr (Some ''0'')"
  by (simp add: normalize_int str_of_int_def dec_digits.simps digit_char_def)

lemma normalize_empty_bytes: "normalize_appid_field (PBytes []) = Inr (Some ''0'')"
  by (simp add: normalize_bytes str_of_int_def dec_digits.simps digit_char_def)

text \<open>
  Claim C10, as the code has it. \<^verbatim>\<open>normalize_appid_field\<close> turns the integer 0 and the empty
  byte string into the identifier \<^verbatim>\<open>"0"\<close>. An entry that stores 0 or the empty byte string
  under the text key \<^verbatim>\<open>appid\<close> and nothing under the byte-string key is left out all the
  same, and no record of the result comes from such an entry. A falsy value under the
  byte-string key is the last operand of the lookup and is normalized as it is: an entry with
  nothing truthy under the text key and 0 or the empty byte string under the byte-string key
  gives a record with the identifier \<^verbatim>\<open>"0"\<close>.
\<close>

theorem falsy_text_key_identifier_skipped:
  "normalize_appid_field (PInt 0) = Inr (Some ''0'')
   \<and> normalize_appid_field (PBytes []) = Inr (Some ''0'')
   \<and> (\<forall>kvs. dict_get kvs (PStr ''appid'') \<in> {PInt 0, PBytes []}
           \<and> dict_get kvs (PBytes (bytes_lit ''appid'')) = PNone
        \<longrightarrow> read_entry (PDict kvs) = Inr None
            \<and> (\<forall>items recs. read_entries items [] = Inr recs \<longrightarrow> PDict kvs \<notin> raw ` set recs))
   \<and> (\<forall>kvs. \<not> truthy (dict_get kvs (PStr ''appid''))
           \<and> dict_get kvs (PBytes (bytes_lit ''appid'')) \<in> {PInt 0, PBytes []}
        \<longrightarrow> (\<exists>r. read_entry (PDict kvs) = Inr (Some r) \<and> appid r = ''0''))"
proof (intro conjI allI impI)
  show "normalize_appid_field (PInt 0) = Inr (Some ''0'')" by (rule normalize_zero)
  show "normalize_appid_field (PBytes []) = Inr (Some ''0'')" by (rule normalize_empty_bytes)
next
  fix kvs
  assume a: "dict_get kvs (PStr ''appid'') \<in> {PInt 0, PBytes []}
           \<and> dict_get kvs (PBytes (bytes_lit ''appid'')) = PNone"
  then have "\<not> truthy (dict_get kvs (PStr ''appid''))" by auto
  with a have sel: "appid_of_entry kvs = PNone"
    by (simp add: appid_of_entry_def py_or_def)
  show skip: "read_entry (PDict kvs) = Inr None"
    by (rule read_entry_skip) (simp add: sel normalize_none)
  fix items recs
  assume r: "read_entries items [] = Inr recs"
  show "PDict kvs \<notin> raw ` set recs"
  proof
    assume "PDict kvs \<in> raw ` set recs"
    then obtain r where "r \<in> set recs" "raw r = PDict kvs" by auto
    with read_entries_origin [OF r, of r] skip show False by simp
  qed
next
  fix kvs
  assume a: "\<not> truthy (dict_get kvs (PStr ''appid''))
           \<and> dict_get kvs (PBytes (bytes_lit ''appid'')) \<in> {PInt 0, PBytes []}"
  then have sel: "appid_of_entry kvs = dict_get kvs (PBytes (bytes_lit ''appid''))"
    by (simp add: appid_of_entry_def py_or_def)
  from a have "normalize_appid_field (appid_of_entry kvs) = Inr (Some ''0'')"
    unfolding sel by (auto simp: normalize_zero normalize_empty_bytes)
  from read_entry_keep [OF this]
  show "\<exists>r. read_entry (PDict kvs) = Inr (Some r) \<and> appid r = ''0''" by auto
qed

theorem falsy_text_key_identifier_skipped_witness:
  "dict_get [(PStr ''appid'', PInt 0), (PStr ''AppName'', PStr ''Game'')] (PStr ''appid'') \<in> {PInt 0, PBytes []}
   \<and> dict_get [(PStr ''appid'', PInt 0), (PStr ''AppName'', PStr ''Game'')] (PBytes (bytes_lit ''appid'')) = PNone
   \<and> read_entry (PDict [(PStr ''appid'', PInt 0), (PStr ''AppName'', PStr ''Game'')]) = Inr None
   \<and> \<not> truthy (dict_get [(PBytes (bytes_lit ''appid''), PBytes [])] (PStr ''appid''))
   \<and> dict_get [(PBytes (bytes_lit ''appid''), PBytes [])] (PBytes (bytes_lit ''appid'')) \<in> {PInt 0, PBytes []}
   \<and> (\<exists>r. read_entry (PDict [(PBytes (bytes_lit ''appid''), PBytes [])]) = Inr (Some r) \<and> appid r = ''0'')"
  using falsy_text_key_identifier_skipped by (simp add: dict_get_def)

text \<open>
  Claim C10 as worded, "no record whose stored identifier is integer 0 ever appears in the
  result", fails for an entry that stores the 0 under the byte-string key.
\<close>

theorem zero_under_bytes_key_kept:
  "dict_get [(PBytes (bytes_lit ''appid''), PInt 0)] (PBytes (bytes_lit ''appid'')) = PInt 0
   \<and> read_shortcuts_data (PDict [(PStr ''shortcuts'', PDict [(PStr ''0'',
        PDict [(PBytes (bytes_lit ''appid''), PInt 0)])])])
      = Inr [\<lparr>appid = ''0'', AppName = '''', Exe = '''', raw = PDict [(PBytes (bytes_lit ''appid''), PInt 0)]\<rparr>]"
  by (simp add: read_shortcuts_data_entries read_entry_def get_either_dict dict_get_def py_or_def
      normalize_zero)

section \<open>Properties of the sidecar writer\<close>













section \<open>Properties of the artwork fetcher\<close>

lemma write_chunks_ok:
  "list_all (\<lambda>ev. \<not> isl ev) evs \<Longrightarrow>
     write_chunks evs written = (True, written @ concat (map projr evs))"
  by (induction evs written rule: write_chunks.induct) simp_all

lemma write_chunks_fault:
  "\<not> list_all (\<lambda>ev. \<not> isl ev) evs \<Longrightarrow> fst (write_chunks evs written) = False"
  by (induction evs written rule: write_chunks.induct) simp_all

text \<open>
  Claim C7. \<^verbatim>\<open>download_to_file\<close> never raises. It returns \<^verbatim>\<open>True\<close> exactly when the request
  gave a response, the status is 200, the destination could be opened and the stream ran to
  its end; the destination then holds the whole body. A connection exception, another status,
  a destination that cannot be opened and an exception in the stream all give \<^verbatim>\<open>False\<close>.
\<close>

theorem download_to_file_true_iff_complete:
  "\<exists>ok fs'. download_to_file net fs url out_path = Inr (ok, fs')
     \<and> (ok \<longleftrightarrow> (\<exists>r. net url = Inr r \<and> status_code r = 200 \<and> \<not> unwritable fs out_path
                      \<and> list_all (\<lambda>ev. \<not> isl ev) (stream r)))
     \<and> (ok \<longrightarrow> (\<exists>r. net url = Inr r \<and> files fs' out_path = Some (concat (map projr (stream r)))))"
proof (cases "net url")
  case (Inl e)
  then show ?thesis by (auto simp: download_to_file_def)
next
  case (Inr r)
  show ?thesis
  proof (cases "status_code r = 200 \<and> \<not> unwritable fs out_path")
    case False
    with Inr show ?thesis by (auto simp: download_to_file_def)
  next
    case True
    show ?thesis
    proof (cases "list_all (\<lambda>ev. \<not> isl ev) (stream r)")
      case all: True
      from write_chunks_ok [OF all, of "[]"] Inr True all show ?thesis
        by (auto simp: download_to_file_def)
    next
      case some: False
      obtain ok written where w: "write_chunks (stream r) [] = (ok, written)"
        by (cases "write_chunks (stream r) []")
      with write_chunks_fault [OF some, of "[]"] have "\<not> ok" by simp
      with w Inr True some show ?thesis by (auto simp: download_to_file_def)
    qed
  qed
qed

theorem download_to_file_true_iff_complete_witness:
  "(let net = (\<lambda>u. if u = ''https://cdn/a.jpg''
             then Inr \<lparr>status_code = 200, stream = [Inr [1, 2], Inr [], Inr [3]]\<rparr>
           else if u = ''https://cdn/cut.jpg''
             then Inr \<lparr>status_code = 200, stream = [Inr [1, 2], Inl (RequestException ''ChunkedEncodingError'')]\<rparr>
           else if u = ''https://cdn/missing.jpg''
             then Inr \<lparr>status_code = 404, stream = []\<rparr>
           else Inl (RequestException ''ConnectionError''));
        fs = \<lparr>files = [''/g/271590.json'' \<mapsto> [123, 125]], unreadable = (\<lambda>p. False), unwritable = (\<lambda>p. p = ''/g/locked.jpg'')\<rparr>
    in download_to_file net fs ''https://cdn/a.jpg'' ''/g/1.jpg''
         = Inr (True, fs\<lparr>files := (files fs)(''/g/1.jpg'' \<mapsto> [1, 2, 3])\<rparr>)
     \<and> download_to_file net fs ''https://cdn/missing.jpg'' ''/g/1.jpg'' = Inr (False, fs)
     \<and> download_to_file net fs ''https://cdn/down.jpg'' ''/g/1.jpg'' = Inr (False, fs)
     \<and> download_to_file net fs ''https://cdn/a.jpg'' ''/g/locked.jpg'' = Inr (False, fs)
     \<and> download_to_file net fs ''https://cdn/cut.jpg'' ''/g/1.jpg''
         = Inr (False, fs\<lparr>files := (files fs)(''/g/1.jpg'' \<mapsto> [1, 2])\<rparr>))"
  using download_to_file_true_iff_complete [where net = "(\<lambda>u. if u = ''https://cdn/a.jpg''
             then Inr \<lparr>status_code = 200, stream = [Inr [1, 2], Inr [], Inr [3]]\<rparr>
           else if u = ''https://cdn/cut.jpg''
             then Inr \<lparr>status_code = 200, stream = [Inr [1, 2], Inl (RequestException ''ChunkedEncodingError'')]\<rparr>
           else if u = ''https://cdn/missing.jpg''
             then Inr \<lparr>status_code = 404, stream = []\<rparr>
           else Inl (RequestException ''ConnectionError''))" and fs = "\<lparr>files = [''/g/271590.json'' \<mapsto> [123, 125]], unreadable = (\<lambda>p. False), unwritable = (\<lambda>p. p = ''/g/locked.jpg'')\<rparr>" and url = "''https://cdn/a.jpg''" and out_path = "''/g/1.jpg''"]
  by (simp add: Let_def download_to_file_def)

section \<open>Properties of the directory resolver\<close>

lemma find_sorted_least:
  "sorted (map f xs) \<Longrightarrow> find P xs = Some x \<Longrightarrow>
     P x \<and> x \<in> set xs \<and> (\<forall>y \<in> set xs. P y \<longrightarrow> f x \<le> f y)"
proof (induction xs)
  case Nil
  then show ?case by simp
next
  case (Cons a xs)
  show ?case
  proof (cases "P a")
    case True
    with Cons.prems show ?thesis by auto
  next
    case False
    with Cons show ?thesis by auto
  qed
qed

text \<open>
  Claim C8. \<^verbatim>\<open>find_steam_userdata\<close> returns nothing when the base directory does not exist.
  Otherwise, with \<open>Q\<close> the names of the subdirectories whose name \<^verbatim>\<open>isdigit\<close> accepts, it
  returns nothing when \<open>Q\<close> is empty and else the least name of \<open>Q\<close> in the character-wise
  order, with the path of that subdirectory. The result depends on the set of entries only,
  not on the order in which the system lists them.
\<close>

theorem find_steam_userdata_least_numeric:
  "find_steam_userdata base None = None
   \<and> (let Q = {n. (n, True) \<in> set es \<and> str_isdigit n}
      in find_steam_userdata base (Some es) =
           (if Q = {} then None else Some (Min Q, path_join base (Min Q))))
   \<and> (\<forall>es'. set es' = set es \<longrightarrow>
         find_steam_userdata base (Some es') = find_steam_userdata base (Some es))"
proof -
  have main: "find_steam_userdata base (Some es) =
           (if {n. (n, True) \<in> set es \<and> str_isdigit n} = {} then None
            else Some (Min {n. (n, True) \<in> set es \<and> str_isdigit n},
                       path_join base (Min {n. (n, True) \<in> set es \<and> str_isdigit n})))"
    (is "_ = (if ?Q = {} then _ else _)") for es
  proof -
    let ?P = "\<lambda>entry :: string \<times> bool. snd entry \<and> str_isdigit (fst entry)"
    let ?xs = "sort_key fst es"
    have "?Q \<subseteq> fst ` set es" by force
    then have fin: "finite ?Q" by (rule finite_subset) simp
    show ?thesis
    proof (cases "find ?P ?xs")
      case None
      then have "?Q = {}" by (auto simp: find_None_iff)
      with None show ?thesis by (simp add: find_steam_userdata_def)
    next
      case (Some x)
      have "sorted (map fst ?xs)" by (rule sorted_sort_key)
      from find_sorted_least [OF this Some]
      have x: "?P x" "x \<in> set es" "\<forall>y \<in> set es. ?P y \<longrightarrow> fst x \<le> fst y" by auto
      have inQ: "fst x \<in> ?Q" using x(1,2) by (cases x) auto
      have "\<forall>n \<in> ?Q. fst x \<le> n" using x(3) by force
      with inQ fin have "Min ?Q = fst x" by (intro Min_eqI) auto
      moreover have "?Q \<noteq> {}" using inQ by blast
      ultimately show ?thesis using Some by (simp add: find_steam_userdata_def)
    qed
  qed
  have det: "find_steam_userdata base (Some es') = find_steam_userdata base (Some es)"
    if "set es' = set es" for es'
    unfolding main using that by simp
  have none: "find_steam_userdata base None = None"
    by (simp add: find_steam_userdata_def)
  show ?thesis
  proof (intro conjI allI impI)
    show "find_steam_userdata base None = None" by (rule none)
  next
    show "let Q = {n. (n, True) \<in> set es \<and> str_isdigit n}
      in find_steam_userdata base (Some es) =
           (if Q = {} then None else Some (Min Q, path_join base (Min Q)))"
      unfolding Let_def by (rule main)
  next
    fix es' :: "(string \<times> bool) list"
    assume "set es' = set es"
    then show "find_steam_userdata base (Some es') = find_steam_userdata base (Some es)"
      by (rule det)
  qed
qed

theorem find_steam_userdata_least_numeric_witness:
  "find_steam_userdata ''/u'' (Some [(''9'', True), (''abc'', True), (''10'', True), (''05'', False)])
     = Some (''10'', ''/u/10'')
   \<and> find_steam_userdata ''/u'' (Some [(''10'', True), (''05'', False), (''9'', True), (''abc'', True)])
     = Some (''10'', ''/u/10'')
   \<and> find_steam_userdata ''/u'' (Some [(''abc'', True), (''05'', False)]) = None"
  using find_steam_userdata_least_numeric [where base = "''/u''" and es = "[(''9'', True), (''abc'', True), (''10'', True), (''05'', False)]"]
  by (simp add: find_steam_userdata_def str_isdigit_def is_digit_char_def path_join_def
      path_root_def path_parts_def path_render_def)

section \<open>Properties of the apply action\<close>

text \<open>
  Claim C9. When the source identifier read from the input field (the text of the field
  without surrounding white space) is not all digits, \<^verbatim>\<open>on_apply\<close> shows a warning and
  returns: no URL is requested and the file system is as before.
\<close>

theorem on_apply_rejects_non_numeric_source:
  "\<not> str_isdigit (str_strip (appid_input w)) \<Longrightarrow>
     \<exists>title msg. on_apply net fs w = Inr \<lparr>fs_after = fs, requested = [], display = Warning title msg\<rparr>"
  by (simp add: on_apply_def Let_def)

theorem on_apply_rejects_non_numeric_source_witness:
  "(let w = \<lparr>current_row = 0, appid_input = ''abc123'',
              shortcuts = [\<lparr>appid = ''999999999'', AppName = ''Game'', Exe = ''/bin/game'', raw = PDict []\<rparr>],
              grid_dir = ''/g''\<rparr>;
        net = (\<lambda>u. if u = ''https://cdn/a.jpg''
             then Inr \<lparr>status_code = 200, stream = [Inr [1, 2], Inr [], Inr [3]]\<rparr>
           else if u = ''https://cdn/cut.jpg''
             then Inr \<lparr>status_code = 200, stream = [Inr [1, 2], Inl (RequestException ''ChunkedEncodingError'')]\<rparr>
           else if u = ''https://cdn/missing.jpg''
             then Inr \<lparr>status_code = 404, stream = []\<rparr>
           else Inl (RequestException ''ConnectionError''));
        fs = \<lparr>files = [''/g/271590.json'' \<mapsto> [123, 125]], unreadable = (\<lambda>p. False), unwritable = (\<lambda>p. p = ''/g/locked.jpg'')\<rparr>
    in \<not> str_isdigit (str_strip (appid_input w))
     \<and> on_apply net fs w = Inr \<lparr>fs_after = fs, requested = [],
           display = Warning ''Invalid AppID'' ''Please enter a valid numeric Steam AppID to copy from.''\<rparr>)"
  using on_apply_rejects_non_numeric_source [where w = "\<lparr>current_row = 0, appid_input = ''abc123'',
              shortcuts = [\<lparr>appid = ''999999999'', AppName = ''Game'', Exe = ''/bin/game'', raw = PDict []\<rparr>],
              grid_dir = ''/g''\<rparr>" and net = "(\<lambda>u. if u = ''https://cdn/a.jpg''
             then Inr \<lparr>status_code = 200, stream = [Inr [1, 2], Inr [], Inr [3]]\<rparr>
           else if u = ''https://cdn/cut.jpg''
             then Inr \<lparr>status_code = 200, stream = [Inr [1, 2], Inl (RequestException ''ChunkedEncodingError'')]\<rparr>
           else if u = ''https://cdn/missing.jpg''
             then Inr \<lparr>status_code = 404, stream = []\<rparr>
           else Inl (RequestException ''ConnectionError''))" and fs = "\<lparr>files = [''/g/271590.json'' \<mapsto> [123, 125]], unreadable = (\<lambda>p. False), unwritable = (\<lambda>p. p = ''/g/locked.jpg'')\<rparr>"]
  by (simp add: Let_def on_apply_def str_strip_def is_space_def str_isdigit_def is_digit_char_def)

end
